theory Spec2Isabelle
  imports Complex_Main
begin

section \<open>Time\<close>

text \<open>
  The caches and the rate limiter read a monotonic clock. Instants and durations are
  counted in ticks of that clock; the TTL of the denick cache, \<open>60 * 60\<close> seconds, is
  3600 ticks of one second.
\<close>

type_synonym time = int

section \<open>The TTL cache\<close>

text \<open>
  Modelled from the spec: the class \<open>TTLCache\<close> that \<open>antisniper_api.py\<close> instantiates
  comes from the \<open>cachetools\<close> package and is not under src/. Section 4.2 of the spec
  describes it: a mapping from keys to values with one time-to-live fixed at
  construction; \<open>get\<close> gives the value when the key is present and unexpired; \<open>set\<close>
  inserts or overwrites with a fresh expiry; the capacity is bounded, the entry inserted
  longest ago being evicted once the maximum entry count is exceeded. An entry is
  (key, value, expiry instant); the list is kept oldest insertion first. An entry is
  unexpired while the clock reads less than its expiry instant.
\<close>

record ('k, 'v) TTLCache =
  maxsize :: nat
  ttl :: time
  links :: "('k \<times> 'v \<times> time) list"

text \<open>Modelled from the spec: the construction, with the capacity and the time-to-live.\<close>

definition new_TTLCache :: "nat \<Rightarrow> time \<Rightarrow> ('k, 'v) TTLCache" where
  "new_TTLCache n d = \<lparr>maxsize = n, ttl = d, links = []\<rparr>"

text \<open>Modelled from the spec: dropping the entries whose expiry instant has been reached.\<close>

definition expire :: "time \<Rightarrow> ('k, 'v) TTLCache \<Rightarrow> ('k, 'v) TTLCache" where
  "expire now c = c\<lparr>links := filter (\<lambda>(k, v, expires). now < expires) (links c)\<rparr>"

text \<open>Modelled from the spec: evicting the oldest insertions while the capacity is exceeded.\<close>

definition popitems :: "('k, 'v) TTLCache \<Rightarrow> ('k, 'v) TTLCache" where
  "popitems c = c\<lparr>links := drop (length (links c) - maxsize c) (links c)\<rparr>"

text \<open>Modelled from the spec: \<open>set(key, value)\<close> at clock reading \<open>now\<close>.\<close>

definition ttl_set :: "('k, 'v) TTLCache \<Rightarrow> time \<Rightarrow> 'k \<Rightarrow> 'v \<Rightarrow> ('k, 'v) TTLCache" where
  "ttl_set c now key val =
     (let live = expire now c;
          others = filter (\<lambda>(k, v, expires). k \<noteq> key) (links live)
      in popitems (live\<lparr>links := others @ [(key, val, now + ttl c)]\<rparr>))"

text \<open>
  Modelled from the spec: \<open>get(key)\<close> at clock reading \<open>now\<close>; \<open>None\<close> is the miss
  (the spec's \<open>false\<close>), \<open>Some v\<close> the hit with its value.
\<close>

definition ttl_get :: "('k, 'v) TTLCache \<Rightarrow> time \<Rightarrow> 'k \<Rightarrow> 'v option" where
  "ttl_get c now key =
     (case map_of (links c) key of
        None \<Rightarrow> None
      | Some (val, expires) \<Rightarrow> if now < expires then Some val else None)"

section \<open>The denick cache of \<open>antisniper_api.py\<close>\<close>

text \<open>
  \<open>str.lower()\<close> is a built-in of Python and not code of the repository. It is the
  parameter \<open>str_lower\<close> of the functions that call it: what is proved of them holds
  whatever \<open>str.lower()\<close> does to a nick.
\<close>

text \<open>
  The examples run on nicks of ASCII characters. On such a string \<open>str.lower()\<close> replaces
  each of the letters A to Z by its lowercase letter and keeps every other character:
  \<open>ascii_lower\<close> is that function, and it stands for \<open>str_lower\<close> in the examples only.
\<close>

definition ascii_lower_char :: "char \<Rightarrow> char" where
  "ascii_lower_char c =
     (case map_of (zip ''ABCDEFGHIJKLMNOPQRSTUVWXYZ'' ''abcdefghijklmnopqrstuvwxyz'') c of
        Some l \<Rightarrow> l
      | None \<Rightarrow> c)"

definition ascii_lower :: "string \<Rightarrow> string" where
  "ascii_lower s = map ascii_lower_char s"

text \<open>
  \<open>get_denick_cache\<close> returns \<open>str | None | Flag\<close>: the sentinel \<open>Flag.NOT_SET\<close> for a
  miss, and otherwise the cached value, a uuid or \<open>None\<close> for a cached failure.
\<close>

datatype cache_hit = NOT_SET | Cached "string option"

text \<open>
  The module's state: the cache \<open>LOWERCASE_DENICK_CACHE\<close> and the urls requested through
  \<open>SESSION.get\<close>, in order. The mutex \<open>DENICK_MUTEX\<close> serialises the two cache
  operations, which are atomic steps here.
\<close>

record antisniper =
  LOWERCASE_DENICK_CACHE :: "(string, string option) TTLCache"
  session_gets :: "string list"

definition initial_antisniper :: antisniper where
  "initial_antisniper =
     \<lparr>LOWERCASE_DENICK_CACHE = new_TTLCache 1024 (60 * 60), session_gets = []\<rparr>"

definition set_denick_cache ::
  "(string \<Rightarrow> string) \<Rightarrow> string \<Rightarrow> string option \<Rightarrow> time \<Rightarrow> antisniper
     \<Rightarrow> string option \<times> antisniper" where
  "set_denick_cache str_lower nick uuid now st =
     (uuid, st\<lparr>LOWERCASE_DENICK_CACHE :=
                 ttl_set (LOWERCASE_DENICK_CACHE st) now (str_lower nick) uuid\<rparr>)"

definition get_denick_cache ::
  "(string \<Rightarrow> string) \<Rightarrow> string \<Rightarrow> time \<Rightarrow> antisniper \<Rightarrow> cache_hit" where
  "get_denick_cache str_lower nick now st =
     (case ttl_get (LOWERCASE_DENICK_CACHE st) now (str_lower nick) of
        None \<Rightarrow> NOT_SET
      | Some uuid \<Rightarrow> Cached uuid)"

text \<open>
  A history of calls of \<open>set_denick_cache\<close>, each with its nick, its value and the clock
  reading at the call, run in order.
\<close>

fun set_denick_cache_all ::
  "(string \<Rightarrow> string) \<Rightarrow> (string \<times> string option \<times> time) list \<Rightarrow> antisniper
     \<Rightarrow> antisniper" where
  "set_denick_cache_all str_lower [] st = st"
| "set_denick_cache_all str_lower ((nick, uuid, now) # calls) st =
     set_denick_cache_all str_lower calls (snd (set_denick_cache str_lower nick uuid now st))"

section \<open>Responses of the remote service\<close>

text \<open>
  What \<open>response.json()\<close> can return. A JSON object is the list of its items; the
  first item with a key is the one a lookup finds.
\<close>

datatype json =
    JNull
  | JBool bool
  | JInt int
  | JFloat real
  | JString string
  | JArray "json list"
  | JObject "(string \<times> json) list"

text \<open>Python's truth value of a parsed JSON value, as \<open>not x\<close> tests it.\<close>

fun truthy :: "json \<Rightarrow> bool" where
  "truthy JNull = False"
| "truthy (JBool b) = b"
| "truthy (JInt i) = (i \<noteq> 0)"
| "truthy (JFloat x) = (x \<noteq> 0)"
| "truthy (JString s) = (s \<noteq> [])"
| "truthy (JArray xs) = (xs \<noteq> [])"
| "truthy (JObject kvs) = (kvs \<noteq> [])"

text \<open>\<open>isinstance(x, int)\<close>, which holds of a \<open>bool\<close> too.\<close>

fun is_int :: "json \<Rightarrow> bool" where
  "is_int (JInt i) = True"
| "is_int (JBool b) = True"
| "is_int j = False"

text \<open>The exceptions that the two fetch functions do not catch.\<close>

datatype exn = AttributeError | KeyError

text \<open>
  \<open>x.get(key, default)\<close>: the lookup of a \<open>dict\<close>; every other parsed value has no
  attribute \<open>get\<close>, and the call raises \<open>AttributeError\<close>.
\<close>

fun py_get :: "json \<Rightarrow> string \<Rightarrow> json \<Rightarrow> exn + json" where
  "py_get (JObject kvs) key dflt =
     Inr (case map_of kvs key of Some v \<Rightarrow> v | None \<Rightarrow> dflt)"
| "py_get j key dflt = Inl AttributeError"

text \<open>
  A response has a status code and a body; \<open>json_body\<close> is \<open>None\<close> when
  \<open>response.json()\<close> raises \<open>JSONDecodeError\<close>. \<open>SESSION.get\<close> either raises
  \<open>RequestException\<close> or returns a response. A response is true (\<open>ok\<close>) unless its
  status code is a client or server error, 400 to 599.
\<close>

record response =
  status_code :: nat
  json_body :: "json option"

datatype remote = RequestException | Got response

definition ok :: "response \<Rightarrow> bool" where
  "ok r = (\<not> (400 \<le> status_code r \<and> status_code r < 600))"

section \<open>The rate limiter\<close>

text \<open>
  Modelled from the spec: the class \<open>RateLimiter\<close> lives in \<open>prism/ratelimiting.py\<close>,
  which is not under src/. Section 4.1 of the spec gives its contract and section 3 its
  data (RateWindow): \<open>acquire\<close> suspends the caller until a slot is available, such that
  no more than \<open>limit\<close> acquisitions lie in any trailing window, and then records the
  acquisition. The recorded instants are kept most recent first.
\<close>

record RateLimiter =
  limit :: nat
  window :: time
  made_requests :: "time list"

text \<open>Modelled from the spec: the construction, with no acquisition recorded.\<close>

definition new_RateLimiter :: "nat \<Rightarrow> time \<Rightarrow> RateLimiter" where
  "new_RateLimiter l w = \<lparr>limit = l, window = w, made_requests = []\<rparr>"

text \<open>
  Modelled from the spec: the number of recorded acquisitions within the trailing
  window \<open>[now - window, now]\<close>.
\<close>

definition acquired_within :: "RateLimiter \<Rightarrow> time \<Rightarrow> nat" where
  "acquired_within rl now =
     length (filter (\<lambda>s. now - window rl \<le> s \<and> s \<le> now) (made_requests rl))"

text \<open>
  Modelled from the spec: the suspension of \<open>acquire\<close>. A slot is available once fewer
  than \<open>limit\<close> acquisitions lie in the trailing window; until then the caller lets the
  clock tick. The result is the instant at which the caller goes on, \<open>None\<close> when it
  never does.
\<close>

partial_function (option) wait_for_slot :: "RateLimiter \<Rightarrow> time \<Rightarrow> time option" where
  "wait_for_slot rl now =
     (if acquired_within rl now < limit rl then Some now
      else wait_for_slot rl (now + 1))"

text \<open>
  Modelled from the spec: \<open>acquire()\<close> called at clock reading \<open>now\<close>; it gives the
  instant of the acquisition and the limiter that has recorded it.
\<close>

definition acquire :: "RateLimiter \<Rightarrow> time \<Rightarrow> (time \<times> RateLimiter) option" where
  "acquire rl now =
     (case wait_for_slot rl now of
        None \<Rightarrow> None
      | Some t \<Rightarrow> Some (t, rl\<lparr>made_requests := t # made_requests rl\<rparr>))"

text \<open>
  Modelled from the spec: a sequence of acquisitions on one limiter. Each caller arrives
  some ticks after the acquisition before it, the clock never running backwards.
\<close>

fun acquisitions :: "nat list \<Rightarrow> time \<Rightarrow> RateLimiter \<Rightarrow> (time \<times> RateLimiter) option" where
  "acquisitions [] now rl = Some (now, rl)"
| "acquisitions (d # ds) now rl =
     (case acquire rl (now + int d) of
        None \<Rightarrow> None
      | Some (t, rl') \<Rightarrow> acquisitions ds t rl')"

text \<open>The class \<open>AntiSniperAPIKeyHolder\<close>: an api key with a limiter of its own.\<close>

definition REQUEST_LIMIT :: nat where
  "REQUEST_LIMIT = 100"

definition REQUEST_WINDOW :: time where
  "REQUEST_WINDOW = 60"

record AntiSniperAPIKeyHolder =
  key :: string
  limiter :: RateLimiter

definition new_AntiSniperAPIKeyHolder :: "string \<Rightarrow> nat \<Rightarrow> time \<Rightarrow> AntiSniperAPIKeyHolder" where
  "new_AntiSniperAPIKeyHolder k l w = \<lparr>key = k, limiter = new_RateLimiter l w\<rparr>"

section \<open>Denicking\<close>

definition DENICK_ENDPOINT :: string where
  "DENICK_ENDPOINT = ''https://api.antisniper.net/denick''"

definition WINSTREAK_ENDPOINT :: string where
  "WINSTREAK_ENDPOINT = ''https://api.antisniper.net/v2/player/winstreak''"

text \<open>
  \<open>parse_denick_response\<close>. Its argument is whatever \<open>response.json()\<close> returned; the
  two lookups on it raise \<open>AttributeError\<close> when that is not a \<open>dict\<close>.
\<close>

definition parse_denick_response :: "json \<Rightarrow> exn + string option" where
  "parse_denick_response response_json =
     (case py_get response_json ''success'' (JBool False) of
        Inl e \<Rightarrow> Inl e
      | Inr success \<Rightarrow>
          if \<not> truthy success then Inr None
          else
            (case py_get response_json ''player'' (JString ''INVALIDTYPE'') of
               Inl e \<Rightarrow> Inl e
             | Inr playerdata \<Rightarrow>
                 (case playerdata of
                    JNull \<Rightarrow> Inr None
                  | JObject kvs \<Rightarrow>
                      (case map_of kvs ''uuid'' of
                         Some (JString uuid) \<Rightarrow> Inr (Some uuid)
                       | _ \<Rightarrow> Inr None)
                  | _ \<Rightarrow> Inr None)))"

text \<open>
  \<open>denick\<close>. \<open>SESSION_get\<close> is the remote service, from the url requested to what the
  request does. The limiter of the key holder, which the request runs under, only delays
  it: \<open>t_lookup\<close> is the clock reading at the cache lookup and \<open>t_store\<close> the reading
  at which the result is stored, once the limiter has let the request through and the
  service has answered. The state records every url requested. The result is \<open>Inl\<close>
  for an exception that leaves \<open>denick\<close>, \<open>Inr\<close> for the value returned.
\<close>

definition denick ::
  "(string \<Rightarrow> string) \<Rightarrow> string \<Rightarrow> AntiSniperAPIKeyHolder \<Rightarrow> (string \<Rightarrow> remote) \<Rightarrow> time \<Rightarrow> time \<Rightarrow> antisniper
     \<Rightarrow> (exn + string option) \<times> antisniper" where
  "denick str_lower nick key_holder SESSION_get t_lookup t_store st =
     (case get_denick_cache str_lower nick t_lookup st of
        Cached (Some uuid) \<Rightarrow> (Inr (Some uuid), st)
      | _ \<Rightarrow>
          (let url = DENICK_ENDPOINT @ ''?key='' @ key key_holder @ ''&nick='' @ nick;
               st1 = st\<lparr>session_gets := session_gets st @ [url]\<rparr>;
               failed = (case set_denick_cache str_lower nick None t_store st1 of
                           (uuid, st2) \<Rightarrow> (Inr uuid, st2))
           in case SESSION_get url of
                RequestException \<Rightarrow> failed
              | Got response \<Rightarrow>
                  if status_code response = 404 then failed
                  else if \<not> ok response then failed
                  else
                    (case json_body response of
                       None \<Rightarrow> failed
                     | Some response_json \<Rightarrow>
                         (case parse_denick_response response_json of
                            Inl e \<Rightarrow> (Inl e, st1)
                          | Inr parsed \<Rightarrow>
                              (case set_denick_cache str_lower nick parsed t_store st1 of
                                 (uuid, st2) \<Rightarrow> (Inr uuid, st2))))))"

section \<open>Estimated winstreaks\<close>

text \<open>
  The class \<open>Winstreaks\<close> of \<open>prism/overlay/player.py\<close>, by the fields that
  \<open>parse_estimated_winstreaks_response\<close> fills: each holds the value taken from the
  response, \<open>JNull\<close> standing for \<open>None\<close>. The constant \<open>MISSING_WINSTREAKS\<close> of that
  module is not under src/ and is a parameter of the two functions below.
\<close>

record Winstreaks =
  overall :: json
  solo :: json
  doubles :: json
  threes :: json
  fours :: json

definition DATA_NAMES :: "(string \<times> string) list" where
  "DATA_NAMES =
     [(''overall'', ''overall''), (''solo'', ''eight_one''), (''doubles'', ''eight_two''),
      (''threes'', ''four_three''), (''fours'', ''four_four'')]"

text \<open>The body of the loop: the value stored for one gamemode.\<close>

definition get_winstreak :: "json \<Rightarrow> string \<Rightarrow> exn + json" where
  "get_winstreak response_json data_name =
     (case py_get response_json (data_name @ ''_winstreak'') JNull of
        Inl e \<Rightarrow> Inl e
      | Inr winstreak \<Rightarrow>
          Inr (if winstreak \<noteq> JNull \<and> \<not> is_int winstreak then JNull else winstreak))"

text \<open>The loop over \<open>DATA_NAMES.items()\<close>, filling the dict \<open>winstreaks\<close>.\<close>

fun collect_winstreaks ::
  "json \<Rightarrow> (string \<times> string) list \<Rightarrow> (string \<rightharpoonup> json) \<Rightarrow> exn + (string \<rightharpoonup> json)" where
  "collect_winstreaks response_json [] winstreaks = Inr winstreaks"
| "collect_winstreaks response_json ((gamemode, data_name) # rest) winstreaks =
     (case get_winstreak response_json data_name of
        Inl e \<Rightarrow> Inl e
      | Inr winstreak \<Rightarrow>
          collect_winstreaks response_json rest (winstreaks(gamemode \<mapsto> winstreak)))"

text \<open>\<open>winstreaks[gamemode]\<close>, which raises \<open>KeyError\<close> on a key that was not set.\<close>

definition subscript :: "(string \<rightharpoonup> json) \<Rightarrow> string \<Rightarrow> exn + json" where
  "subscript d k = (case d k of None \<Rightarrow> Inl KeyError | Some v \<Rightarrow> Inr v)"

definition make_Winstreaks :: "(string \<rightharpoonup> json) \<Rightarrow> exn + Winstreaks" where
  "make_Winstreaks winstreaks =
     (case subscript winstreaks ''overall'' of Inl e \<Rightarrow> Inl e | Inr a \<Rightarrow>
      case subscript winstreaks ''solo'' of Inl e \<Rightarrow> Inl e | Inr b \<Rightarrow>
      case subscript winstreaks ''doubles'' of Inl e \<Rightarrow> Inl e | Inr c \<Rightarrow>
      case subscript winstreaks ''threes'' of Inl e \<Rightarrow> Inl e | Inr d \<Rightarrow>
      case subscript winstreaks ''fours'' of Inl e \<Rightarrow> Inl e | Inr f \<Rightarrow>
        Inr \<lparr>overall = a, solo = b, doubles = c, threes = d, fours = f\<rparr>)"

definition parse_estimated_winstreaks_response ::
  "Winstreaks \<Rightarrow> json \<Rightarrow> exn + (Winstreaks \<times> bool)" where
  "parse_estimated_winstreaks_response MISSING_WINSTREAKS response_json =
     (case py_get response_json ''success'' (JBool False) of
        Inl e \<Rightarrow> Inl e
      | Inr success \<Rightarrow>
          if \<not> truthy success then Inr (MISSING_WINSTREAKS, False)
          else
            (case py_get response_json ''overall_accurate'' JNull of
               Inl e \<Rightarrow> Inl e
             | Inr winstreaks_accurate \<Rightarrow>
                 (case winstreaks_accurate of
                    JBool accurate \<Rightarrow>
                      (case collect_winstreaks response_json DATA_NAMES Map.empty of
                         Inl e \<Rightarrow> Inl e
                       | Inr winstreaks \<Rightarrow>
                           (case make_Winstreaks winstreaks of
                              Inl e \<Rightarrow> Inl e
                            | Inr ws \<Rightarrow> Inr (ws, accurate)))
                  | _ \<Rightarrow> Inr (MISSING_WINSTREAKS, False))))"

text \<open>
  \<open>get_estimated_winstreaks\<close>, with the remote service as in \<open>denick\<close>; the limiter
  only delays the request. \<open>Inl\<close> is an exception that leaves the function.
\<close>

definition get_estimated_winstreaks ::
  "Winstreaks \<Rightarrow> string \<Rightarrow> AntiSniperAPIKeyHolder \<Rightarrow> (string \<Rightarrow> remote)
     \<Rightarrow> exn + (Winstreaks \<times> bool)" where
  "get_estimated_winstreaks MISSING_WINSTREAKS uuid key_holder SESSION_get =
     (let url = WINSTREAK_ENDPOINT @ ''?key='' @ key key_holder @ ''&player='' @ uuid
      in case SESSION_get url of
           RequestException \<Rightarrow> Inr (MISSING_WINSTREAKS, False)
         | Got response \<Rightarrow>
             if \<not> ok response then Inr (MISSING_WINSTREAKS, False)
             else
               (case json_body response of
                  None \<Rightarrow> Inr (MISSING_WINSTREAKS, False)
                | Some response_json \<Rightarrow>
                    parse_estimated_winstreaks_response MISSING_WINSTREAKS response_json))"

section \<open>Fetching the stats of one player\<close>

text \<open>
  The errors that the fetch of one player's data raises, as
  \<open>test_controller.py\<close> imports them from \<open>prism.hypixel\<close>.
\<close>

datatype hypixel_error =
    HypixelAPIError
  | HypixelAPIKeyError
  | HypixelAPIThrottleError
  | HypixelPlayerNotFoundError

text \<open>
  What the controller hands on as the playerdata: the data received, \<open>None\<close> for a
  player that does not exist, or the marker \<open>ERROR_DURING_PROCESSING\<close>.
\<close>

datatype 'p playerdata = Playerdata 'p | PlayerNone | ERROR_DURING_PROCESSING

text \<open>
  Modelled from the spec: the method \<open>RealOverlayController.get_playerdata\<close> lives in
  \<open>prism/overlay/controller.py\<close>, which is not under src/; only its test is. Section 4.6
  of the spec names the outcomes of a fetch (success, a not-found error, a throttling
  error, any other error) and the test \<open>test_real_overlay_controller_get_playerdata\<close>
  names the playerdata returned for each. The function wrapped, \<open>get_playerdata\<close>, is a
  parameter: \<open>Inl\<close> when the fetch raises, \<open>Inr\<close> when it returns data. In the result
  \<open>Inl\<close> is an exception that leaves the method. The method keeps no cache of its own
  (in the test the fetch that follows a not-found one returns its data): the stats cache
  of section 4.6 lies above it. The first component of the pair the method returns, the
  instant of reception, is left out.
\<close>

definition controller_get_playerdata ::
  "(string \<Rightarrow> hypixel_error + 'p) \<Rightarrow> string \<Rightarrow> hypixel_error + 'p playerdata" where
  "controller_get_playerdata get_playerdata uuid =
     (case get_playerdata uuid of
        Inr playerdata \<Rightarrow> Inr (Playerdata playerdata)
      | Inl HypixelPlayerNotFoundError \<Rightarrow> Inr PlayerNone
      | Inl HypixelAPIThrottleError \<Rightarrow> Inr ERROR_DURING_PROCESSING
      | Inl HypixelAPIKeyError \<Rightarrow> Inr ERROR_DURING_PROCESSING
      | Inl HypixelAPIError \<Rightarrow> Inr ERROR_DURING_PROCESSING)"

section \<open>Settings\<close>

text \<open>
  \<open>NickValue\<close>, \<open>SettingsDict\<close> and \<open>Settings\<close> of \<open>settings.py\<close>. A \<open>SettingsDict\<close>
  is a dict with exactly the keys of the \<open>TypedDict\<close>, so it is a record of them. The
  types \<open>KeyDict\<close> and \<open>Key\<close> and the functions \<open>construct_key\<close> and \<open>Key.to_dict\<close>
  belong to \<open>prism/overlay/keybinds.py\<close>, which is not under src/: the types are the
  parameters \<open>'kd\<close> and \<open>'k\<close>, and the functions are parameters of the functions that
  call them. The field \<open>mutex\<close> of \<open>Settings\<close> takes no part in \<open>to_dict\<close> and is left
  out.
\<close>

record NickValue =
  uuid :: string
  comment :: string

record 'kd SettingsDict =
  hypixel_api_key :: string
  antisniper_api_key :: "string option"
  use_antisniper_api :: bool
  known_nicks :: "string \<rightharpoonup> NickValue"
  autodenick_teammates :: bool
  autoselect_logfile :: bool
  show_on_tab :: bool
  show_on_tab_keybind :: 'kd
  check_for_updates :: bool
  hide_dead_players :: bool
  disable_overrideredirect :: bool
  hide_with_alpha :: bool
  alpha_hundredths :: int

record 'k Settings =
  hypixel_api_key :: string
  antisniper_api_key :: "string option"
  use_antisniper_api :: bool
  known_nicks :: "string \<rightharpoonup> NickValue"
  autodenick_teammates :: bool
  autoselect_logfile :: bool
  show_on_tab :: bool
  show_on_tab_keybind :: 'k
  check_for_updates :: bool
  hide_dead_players :: bool
  disable_overrideredirect :: bool
  hide_with_alpha :: bool
  alpha_hundredths :: int
  path :: string

definition from_dict :: "('kd \<Rightarrow> 'k) \<Rightarrow> 'kd SettingsDict \<Rightarrow> string \<Rightarrow> 'k Settings" where
  "from_dict construct_key source p =
     \<lparr>hypixel_api_key = SettingsDict.hypixel_api_key source,
      antisniper_api_key = SettingsDict.antisniper_api_key source,
      use_antisniper_api = SettingsDict.use_antisniper_api source,
      known_nicks = SettingsDict.known_nicks source,
      autodenick_teammates = SettingsDict.autodenick_teammates source,
      autoselect_logfile = SettingsDict.autoselect_logfile source,
      show_on_tab = SettingsDict.show_on_tab source,
      show_on_tab_keybind = construct_key (SettingsDict.show_on_tab_keybind source),
      check_for_updates = SettingsDict.check_for_updates source,
      hide_dead_players = SettingsDict.hide_dead_players source,
      disable_overrideredirect = SettingsDict.disable_overrideredirect source,
      hide_with_alpha = SettingsDict.hide_with_alpha source,
      alpha_hundredths = SettingsDict.alpha_hundredths source,
      path = p\<rparr>"

definition to_dict :: "('k \<Rightarrow> 'kd) \<Rightarrow> 'k Settings \<Rightarrow> 'kd SettingsDict" where
  "to_dict key_to_dict self =
     \<lparr>SettingsDict.hypixel_api_key = hypixel_api_key self,
      SettingsDict.antisniper_api_key = antisniper_api_key self,
      SettingsDict.use_antisniper_api = use_antisniper_api self,
      SettingsDict.known_nicks = known_nicks self,
      SettingsDict.autodenick_teammates = autodenick_teammates self,
      SettingsDict.autoselect_logfile = autoselect_logfile self,
      SettingsDict.show_on_tab = show_on_tab self,
      SettingsDict.show_on_tab_keybind = key_to_dict (show_on_tab_keybind self),
      SettingsDict.check_for_updates = check_for_updates self,
      SettingsDict.hide_dead_players = hide_dead_players self,
      SettingsDict.disable_overrideredirect = disable_overrideredirect self,
      SettingsDict.hide_with_alpha = hide_with_alpha self,
      SettingsDict.alpha_hundredths = alpha_hundredths self\<rparr>"

definition update_from :: "('kd \<Rightarrow> 'k) \<Rightarrow> 'k Settings \<Rightarrow> 'kd SettingsDict \<Rightarrow> 'k Settings" where
  "update_from construct_key self new_settings =
     self\<lparr>hypixel_api_key := SettingsDict.hypixel_api_key new_settings,
          antisniper_api_key := SettingsDict.antisniper_api_key new_settings,
          use_antisniper_api := SettingsDict.use_antisniper_api new_settings,
          known_nicks := SettingsDict.known_nicks new_settings,
          autodenick_teammates := SettingsDict.autodenick_teammates new_settings,
          autoselect_logfile := SettingsDict.autoselect_logfile new_settings,
          show_on_tab := SettingsDict.show_on_tab new_settings,
          show_on_tab_keybind := construct_key (SettingsDict.show_on_tab_keybind new_settings),
          check_for_updates := SettingsDict.check_for_updates new_settings,
          hide_dead_players := SettingsDict.hide_dead_players new_settings,
          disable_overrideredirect := SettingsDict.disable_overrideredirect new_settings,
          hide_with_alpha := SettingsDict.hide_with_alpha new_settings,
          alpha_hundredths := SettingsDict.alpha_hundredths new_settings\<rparr>"

section \<open>Facts about the TTL cache\<close>

lemma map_of_snoc_fresh:
  "ky \<notin> fst ` set xs \<Longrightarrow> map_of (xs @ [(ky, y)]) ky = Some y"
  by (induction xs) auto

lemma others_fresh:
  "ky \<notin> fst ` set (filter (\<lambda>(k, v, expires). k \<noteq> ky) xs)"
  by (induction xs) auto

lemma drop_fresh:
  "ky \<notin> fst ` set xs \<Longrightarrow> ky \<notin> fst ` set (drop n xs)"
  by (auto dest: in_set_dropD)

lemma links_ttl_set:
  assumes "0 < maxsize c"
  shows "\<exists>kept. links (ttl_set c now ky vl) = kept @ [(ky, vl, now + ttl c)]
           \<and> ky \<notin> fst ` set kept"
proof -
  define others where
    "others = filter (\<lambda>(k, v, expires). k \<noteq> ky) (links (expire now c))"
  define n where "n = length (others @ [(ky, vl, now + ttl c)]) - maxsize c"
  have n_le: "n \<le> length others"
    using assms by (simp add: n_def)
  have "links (ttl_set c now ky vl) = drop n (others @ [(ky, vl, now + ttl c)])"
    by (simp add: ttl_set_def popitems_def expire_def others_def n_def Let_def)
  also have "\<dots> = drop n others @ [(ky, vl, now + ttl c)]"
    using n_le by simp
  finally have eq: "links (ttl_set c now ky vl) = drop n others @ [(ky, vl, now + ttl c)]" .
  have "ky \<notin> fst ` set (drop n others)"
    unfolding others_def by (rule drop_fresh) (rule others_fresh)
  with eq show ?thesis by blast
qed

lemma ttl_get_ttl_set_same:
  assumes "0 < maxsize c"
  shows "ttl_get (ttl_set c now ky vl) t ky =
           (if t < now + ttl c then Some vl else None)"
proof -
  obtain kept where k: "links (ttl_set c now ky vl) = kept @ [(ky, vl, now + ttl c)]"
    and fresh: "ky \<notin> fst ` set kept"
    using links_ttl_set [OF assms] by blast
  have "map_of (links (ttl_set c now ky vl)) ky = Some (vl, now + ttl c)"
    unfolding k using fresh by (rule map_of_snoc_fresh)
  then show ?thesis by (simp add: ttl_get_def)
qed

lemma ttl_set_params:
  "maxsize (ttl_set c now ky vl) = maxsize c" "ttl (ttl_set c now ky vl) = ttl c"
  by (simp_all add: ttl_set_def popitems_def expire_def Let_def)

lemma ttl_set_keeps_absent:
  assumes "k \<notin> fst ` set (links c)" and "k \<noteq> ky"
  shows "k \<notin> fst ` set (links (ttl_set c now ky vl))"
proof -
  have sub: "set (links (ttl_set c now ky vl))
               \<subseteq> set (links c) \<union> {(ky, vl, now + ttl c)}"
    by (auto simp: ttl_set_def popitems_def expire_def Let_def dest: in_set_dropD)
  show ?thesis
  proof
    assume "k \<in> fst ` set (links (ttl_set c now ky vl))"
    then obtain e where e: "e \<in> set (links (ttl_set c now ky vl))" and "fst e = k"
      by auto
    with sub have "e \<in> set (links c) \<or> e = (ky, vl, now + ttl c)" by auto
    with assms \<open>fst e = k\<close> show False by force
  qed
qed

lemma ttl_get_absent:
  assumes "k \<notin> fst ` set (links c)"
  shows "ttl_get c t k = None"
proof -
  have "map_of (links c) k = None"
    using assms by (simp add: map_of_eq_None_iff)
  then show ?thesis by (simp add: ttl_get_def)
qed

lemma ttl_get_unexpired:
  assumes "ttl_get c now k = Some v"
  shows "\<exists>expires. (k, v, expires) \<in> set (links c) \<and> now < expires"
proof -
  from assms obtain expires where m: "map_of (links c) k = Some (v, expires)" and "now < expires"
    by (auto simp: ttl_get_def split: option.splits if_splits)
  from map_of_SomeD [OF m] \<open>now < expires\<close> show ?thesis by blast
qed

section \<open>TTL cache expiry\<close>

text \<open>
  Claim C3. For every ky \<open>k\<close> and value \<open>v\<close>, in a cache with room for at least one
  entry, after \<open>set(k, v)\<close> at time \<open>T\<close> a lookup of \<open>k\<close> at time \<open>t\<close> is a hit with
  value \<open>v\<close> whenever \<open>T \<le> t < T + ttl\<close>, and a miss whenever \<open>t \<ge> T + ttl\<close>: an
  expired entry is never returned.
\<close>

theorem ttl_cache_expiry:
  assumes "0 < maxsize c"
  shows "(T \<le> t \<and> t < T + ttl c \<longrightarrow> ttl_get (ttl_set c T k v) t k = Some v)
       \<and> (T + ttl c \<le> t \<longrightarrow> ttl_get (ttl_set c T k v) t k = None)"
  using ttl_get_ttl_set_same [OF assms, of T k v t] by simp

theorem ttl_cache_expiry_witness:
  "ttl_get (ttl_set (new_TTLCache 2 5 :: (nat, string) TTLCache) 10 7 ''v'') 14 7 = Some ''v''
   \<and> ttl_get (ttl_set (new_TTLCache 2 5 :: (nat, string) TTLCache) 10 7 ''v'') 15 7 = None"
proof -
  have m: "0 < maxsize (new_TTLCache 2 5 :: (nat, string) TTLCache)"
    by (simp add: new_TTLCache_def)
  have t: "ttl (new_TTLCache 2 5 :: (nat, string) TTLCache) = 5"
    by (simp add: new_TTLCache_def)
  show ?thesis
    using ttl_cache_expiry [OF m, of 10 14 7 "''v''"]
          ttl_cache_expiry [OF m, of 10 15 7 "''v''"]
    by (simp add: t)
qed

section \<open>The keys of the denick str_lower cache\<close>

lemma set_denick_cache_all_params:
  "maxsize (LOWERCASE_DENICK_CACHE (set_denick_cache_all str_lower calls st)) = maxsize (LOWERCASE_DENICK_CACHE st)
   \<and> ttl (LOWERCASE_DENICK_CACHE (set_denick_cache_all str_lower calls st)) = ttl (LOWERCASE_DENICK_CACHE st)"
  by (induction str_lower calls st rule: set_denick_cache_all.induct)
     (simp_all add: set_denick_cache_def ttl_set_params)

lemma set_denick_cache_all_absent:
  assumes "k \<notin> fst ` set (links (LOWERCASE_DENICK_CACHE st))"
    and "\<forall>c \<in> set calls. str_lower (fst c) \<noteq> k"
  shows "k \<notin> fst ` set (links (LOWERCASE_DENICK_CACHE (set_denick_cache_all str_lower calls st)))"
  using assms
proof (induction str_lower calls st rule: set_denick_cache_all.induct)
  case (1 str_lower st)
  then show ?case by simp
next
  case (2 str_lower nick u now calls st)
  have ne: "k \<noteq> str_lower nick"
    using "2.prems" by auto
  have "k \<notin> fst ` set (links (ttl_set (LOWERCASE_DENICK_CACHE st) now (str_lower nick) u))"
    using "2.prems"(1) ne by (rule ttl_set_keeps_absent)
  then have "k \<notin> fst ` set (links (LOWERCASE_DENICK_CACHE (snd (set_denick_cache str_lower nick u now st))))"
    by (simp add: set_denick_cache_def)
  with 2 show ?case by simp
qed

lemma initial_params:
  "maxsize (LOWERCASE_DENICK_CACHE initial_antisniper) = 1024"
  "ttl (LOWERCASE_DENICK_CACHE initial_antisniper) = 3600"
  "links (LOWERCASE_DENICK_CACHE initial_antisniper) = []"
  by (simp_all add: initial_antisniper_def new_TTLCache_def)

lemma get_after_set_denick_cache:
  assumes "0 < maxsize (LOWERCASE_DENICK_CACHE st)" and "str_lower m = str_lower n"
  shows "get_denick_cache str_lower m t (snd (set_denick_cache str_lower n u T st)) =
           (if t < T + ttl (LOWERCASE_DENICK_CACHE st) then Cached u else NOT_SET)"
  using assms by (simp add: get_denick_cache_def set_denick_cache_def ttl_get_ttl_set_same)

text \<open>
  Claim C10. The denick cache is keyed by \<open>nick.lower()\<close>, whatever \<open>str.lower()\<close> does
  to a string. After any history of calls of \<open>set_denick_cache\<close> on the module's cache,
  \<open>set_denick_cache(n, u)\<close> returns \<open>u\<close>; a \<open>get_denick_cache(m)\<close> after it, before the
  entry expires, returns \<open>u\<close> for every \<open>m\<close> with \<open>m.lower() == n.lower()\<close>; and
  \<open>get_denick_cache(m)\<close> returns the sentinel \<open>NOT_SET\<close>, not \<open>None\<close>, when no call of
  the history set a nick whose lowercase form is that of \<open>m\<close>.
\<close>

theorem denick_cache_case_insensitive:
  "fst (set_denick_cache str_lower n u T (set_denick_cache_all str_lower calls initial_antisniper)) = u
   \<and> (str_lower m = str_lower n \<and> T \<le> t \<and> t < T + 60 * 60 \<longrightarrow>
        get_denick_cache str_lower m t
          (snd (set_denick_cache str_lower n u T (set_denick_cache_all str_lower calls initial_antisniper))) = Cached u)
   \<and> ((\<forall>c \<in> set calls. str_lower (fst c) \<noteq> str_lower m) \<longrightarrow>
        get_denick_cache str_lower m t (set_denick_cache_all str_lower calls initial_antisniper) = NOT_SET)"
proof (intro conjI impI)
  let ?st = "set_denick_cache_all str_lower calls initial_antisniper"
  have ms: "0 < maxsize (LOWERCASE_DENICK_CACHE ?st)"
    and tt: "ttl (LOWERCASE_DENICK_CACHE ?st) = 3600"
    using set_denick_cache_all_params [of str_lower calls initial_antisniper]
    by (simp_all add: initial_params)
  show "fst (set_denick_cache str_lower n u T ?st) = u"
    by (simp add: set_denick_cache_def)
  show "get_denick_cache str_lower m t (snd (set_denick_cache str_lower n u T ?st)) = Cached u"
    if "str_lower m = str_lower n \<and> T \<le> t \<and> t < T + 60 * 60"
    using that get_after_set_denick_cache [OF ms, of str_lower m n t u T] by (simp add: tt)
  show "get_denick_cache str_lower m t ?st = NOT_SET"
    if "\<forall>c \<in> set calls. str_lower (fst c) \<noteq> str_lower m"
  proof -
    have "str_lower m \<notin> fst ` set (links (LOWERCASE_DENICK_CACHE ?st))"
      using that by (intro set_denick_cache_all_absent) (simp_all add: initial_params)
    then show ?thesis by (simp add: get_denick_cache_def ttl_get_absent)
  qed
qed

theorem denick_cache_case_insensitive_witness:
  "fst (set_denick_cache ascii_lower ''Nick'' (Some ''abc'') 10
          (set_denick_cache_all ascii_lower [(''Other'', None, 5)] initial_antisniper)) = Some ''abc''
   \<and> get_denick_cache ascii_lower ''nICK'' 3609
          (snd (set_denick_cache ascii_lower ''Nick'' (Some ''abc'') 10
             (set_denick_cache_all ascii_lower [(''Other'', None, 5)] initial_antisniper))) = Cached (Some ''abc'')
   \<and> get_denick_cache ascii_lower ''nICK'' 7 (set_denick_cache_all ascii_lower [(''Other'', None, 5)] initial_antisniper) = NOT_SET"
proof -
  have l: "ascii_lower ''nICK'' = ascii_lower ''Nick''"
    by (simp add: ascii_lower_def ascii_lower_char_def)
  have o: "\<forall>c \<in> set [(''Other'', None :: string option, 5 :: time)]. ascii_lower (fst c) \<noteq> ascii_lower ''nICK''"
    by (simp add: ascii_lower_def ascii_lower_char_def)
  show ?thesis
    using denick_cache_case_insensitive
            [of ascii_lower "''Nick''" "Some ''abc''" 10 "[(''Other'', None, 5)]" "''nICK''" 3609]
          denick_cache_case_insensitive
            [of ascii_lower "''Nick''" "Some ''abc''" 10 "[(''Other'', None, 5)]" "''nICK''" 7]
          l o
    by simp
qed

section \<open>Denicking and the cache\<close>

lemma session_gets_set_denick_cache:
  "session_gets (snd (set_denick_cache str_lower n u T st)) = session_gets st"
  by (simp add: set_denick_cache_def)

lemma denick_cached_success:
  assumes "get_denick_cache str_lower nick t st = Cached (Some u)"
  shows "denick str_lower nick kh S t t' st = (Inr (Some u), st)"
  using assms by (simp add: denick_def)

lemma denick_requests_once:
  assumes "\<forall>u. get_denick_cache str_lower nick t st \<noteq> Cached (Some u)"
  shows "session_gets (snd (denick str_lower nick kh S t t' st)) =
           session_gets st @ [DENICK_ENDPOINT @ ''?key='' @ key kh @ ''&nick='' @ nick]"
proof -
  have "get_denick_cache str_lower nick t st = NOT_SET \<or> get_denick_cache str_lower nick t st = Cached None"
    using assms by (cases "get_denick_cache str_lower nick t st") auto
  then show ?thesis
    by (auto simp: denick_def Let_def set_denick_cache_def
             split: remote.splits option.splits sum.splits)
qed

text \<open>
  Claim C1, as amended. When the cache holds an unexpired entry for the nick, \<open>denick\<close>
  answers from the cache, with no remote call and no change of state, only if the entry
  is a uuid. An entry \<open>None\<close>, a cached failure, is not served: \<open>denick\<close> then sends
  exactly one request to the denick str_lower endpoint, as it does on a miss.
\<close>

theorem denick_serves_cached_success_only:
  assumes "get_denick_cache str_lower nick t st = Cached r"
  shows "case r of
           Some u \<Rightarrow> denick str_lower nick kh S t t' st = (Inr (Some u), st)
         | None \<Rightarrow>
             session_gets (snd (denick str_lower nick kh S t t' st)) =
               session_gets st @ [DENICK_ENDPOINT @ ''?key='' @ key kh @ ''&nick='' @ nick]"
proof (cases r)
  case None
  with assms have "\<forall>u. get_denick_cache str_lower nick t st \<noteq> Cached (Some u)" by simp
  with None show ?thesis by (simp add: denick_requests_once)
next
  case (Some u)
  with assms show ?thesis by (simp add: denick_cached_success)
qed

theorem denick_serves_cached_success_only_witness:
  "denick ascii_lower ''nick'' (new_AntiSniperAPIKeyHolder ''k'' REQUEST_LIMIT REQUEST_WINDOW)
      (\<lambda>url. RequestException) 5 6
      (snd (set_denick_cache ascii_lower ''Nick'' (Some ''abc'') 0 initial_antisniper))
     = (Inr (Some ''abc''), snd (set_denick_cache ascii_lower ''Nick'' (Some ''abc'') 0 initial_antisniper))
   \<and> session_gets (snd (denick ascii_lower ''nick'' (new_AntiSniperAPIKeyHolder ''k'' REQUEST_LIMIT REQUEST_WINDOW)
      (\<lambda>url. RequestException) 5 6
      (snd (set_denick_cache ascii_lower ''Nick'' None 0 initial_antisniper))))
     = [''https://api.antisniper.net/denick?key=k&nick=nick'']"
proof -
  have a: "get_denick_cache ascii_lower ''nick'' 5 (snd (set_denick_cache ascii_lower ''Nick'' (Some ''abc'') 0 initial_antisniper))
             = Cached (Some ''abc'')"
    by (simp add: get_denick_cache_def set_denick_cache_def initial_antisniper_def
          new_TTLCache_def ttl_get_def ttl_set_def expire_def popitems_def
          ascii_lower_def ascii_lower_char_def)
  have b: "get_denick_cache ascii_lower ''nick'' 5 (snd (set_denick_cache ascii_lower ''Nick'' None 0 initial_antisniper))
             = Cached None"
    by (simp add: get_denick_cache_def set_denick_cache_def initial_antisniper_def
          new_TTLCache_def ttl_get_def ttl_set_def expire_def popitems_def
          ascii_lower_def ascii_lower_char_def)
  show ?thesis
    using denick_serves_cached_success_only [OF a] denick_serves_cached_success_only [OF b]
    by (simp add: DENICK_ENDPOINT_def new_AntiSniperAPIKeyHolder_def set_denick_cache_def
          initial_antisniper_def)
qed

text \<open>
  Claim C1, as stated, fails. The remote service answers 404 to every request. The
  first resolution of \<open>Nick\<close>, at time 0, stores the failure at time 1; at time 2 the
  entry is in the cache, unexpired; the second resolution, at time 2, sends a request
  all the same: two resolutions within the TTL window, two remote calls.
\<close>

theorem denick_negative_cache_counterexample:
  "get_denick_cache ascii_lower ''Nick'' 2
     (snd (denick ascii_lower ''Nick'' (new_AntiSniperAPIKeyHolder ''k'' REQUEST_LIMIT REQUEST_WINDOW)
             (\<lambda>url. Got \<lparr>status_code = 404, json_body = None\<rparr>) 0 1 initial_antisniper))
     = Cached None
   \<and> length (session_gets
       (snd (denick ascii_lower ''Nick'' (new_AntiSniperAPIKeyHolder ''k'' REQUEST_LIMIT REQUEST_WINDOW)
               (\<lambda>url. Got \<lparr>status_code = 404, json_body = None\<rparr>) 2 3
          (snd (denick ascii_lower ''Nick'' (new_AntiSniperAPIKeyHolder ''k'' REQUEST_LIMIT REQUEST_WINDOW)
                  (\<lambda>url. Got \<lparr>status_code = 404, json_body = None\<rparr>) 0 1 initial_antisniper)))))
     = 2"
  by (simp add: denick_def get_denick_cache_def set_denick_cache_def initial_antisniper_def
        new_TTLCache_def ttl_get_def ttl_set_def expire_def popitems_def
        ascii_lower_def ascii_lower_char_def Let_def)

section \<open>Failures of the denick str_lower request\<close>

lemma parse_denick_response_dict:
  "\<exists>r. parse_denick_response (JObject kvs) = Inr r"
  by (simp add: parse_denick_response_def split: json.splits option.splits)

lemma parse_denick_response_no_success:
  assumes "\<not> truthy (case map_of kvs ''success'' of Some v \<Rightarrow> v | None \<Rightarrow> JBool False)"
  shows "parse_denick_response (JObject kvs) = Inr None"
  using assms by (simp add: parse_denick_response_def)

lemma parse_denick_response_success:
  assumes "map_of kvs ''success'' = Some (JBool True)"
    and "map_of kvs ''player'' = Some (JObject pvs)"
    and "map_of pvs ''uuid'' = Some (JString u)"
  shows "parse_denick_response (JObject kvs) = Inr (Some u)"
  using assms by (simp add: parse_denick_response_def)

lemma parse_denick_response_uuid:
  assumes "parse_denick_response j = Inr (Some u)"
  shows "\<exists>kvs pvs. j = JObject kvs \<and> map_of kvs ''player'' = Some (JObject pvs)
           \<and> map_of pvs ''uuid'' = Some (JString u)"
proof (cases j)
  case (JObject kvs)
  with assms show ?thesis
    by (auto simp: parse_denick_response_def split: if_splits json.splits option.splits)
qed (use assms in \<open>simp_all add: parse_denick_response_def\<close>)

lemma parse_denick_response_raises:
  "(parse_denick_response j = Inl e) = (e = AttributeError \<and> (\<forall>kvs. j \<noteq> JObject kvs))"
proof (cases j)
  case (JObject kvs)
  then show ?thesis
    using parse_denick_response_dict [of kvs] by auto
qed (auto simp: parse_denick_response_def)

text \<open>
  A body that is JSON and not an object is not among the answers that \<open>denick\<close>
  handles. On the body \<open>[]\<close> under status 200, \<open>parse_denick_response\<close> calls \<open>get\<close> on
  the list: the \<open>AttributeError\<close> leaves \<open>denick\<close>, and no entry is stored for the nick.
\<close>

lemma denick_raises_on_json_array:
  "fst (denick ascii_lower ''Nick'' (new_AntiSniperAPIKeyHolder ''k'' REQUEST_LIMIT REQUEST_WINDOW)
          (\<lambda>url. Got \<lparr>status_code = 200, json_body = Some (JArray [])\<rparr>) 0 1
          initial_antisniper) = Inl AttributeError
   \<and> get_denick_cache ascii_lower ''Nick'' 1
        (snd (denick ascii_lower ''Nick'' (new_AntiSniperAPIKeyHolder ''k'' REQUEST_LIMIT REQUEST_WINDOW)
                (\<lambda>url. Got \<lparr>status_code = 200, json_body = Some (JArray [])\<rparr>) 0 1
                initial_antisniper)) = NOT_SET"
  by (simp add: denick_def get_denick_cache_def initial_antisniper_def new_TTLCache_def
        ttl_get_def ok_def parse_denick_response_def Let_def)

section \<open>Failures of the winstreak request\<close>





lemma get_estimated_winstreaks_handled:
  assumes "S (WINSTREAK_ENDPOINT @ ''?key='' @ key kh @ ''&player='' @ u) = RequestException
       \<or> (\<exists>r. S (WINSTREAK_ENDPOINT @ ''?key='' @ key kh @ ''&player='' @ u) = Got r
              \<and> (\<not> ok r \<or> json_body r = None))"
  shows "get_estimated_winstreaks M u kh S = Inr (M, False)"
  using assms by (auto simp: get_estimated_winstreaks_def Let_def)

text \<open>
  The same holds of \<open>get_estimated_winstreaks\<close>: on the body \<open>[]\<close> under status 200,
  \<open>parse_estimated_winstreaks_response\<close> calls \<open>get\<close> on the list and the
  \<open>AttributeError\<close> leaves the function, whatever the placeholder is.
\<close>

lemma get_estimated_winstreaks_raises_on_json_array:
  "get_estimated_winstreaks MISSING_WINSTREAKS ''uuid''
     (new_AntiSniperAPIKeyHolder ''k'' REQUEST_LIMIT REQUEST_WINDOW)
     (\<lambda>url. Got \<lparr>status_code = 200, json_body = Some (JArray [])\<rparr>) = Inl AttributeError"
  by (simp add: get_estimated_winstreaks_def ok_def parse_estimated_winstreaks_response_def
        Let_def)

section \<open>The errors of a stats fetch\<close>

text \<open>
  Claim C5. For every uuid, when the fetch of the player's data raises, the controller
  raises nothing: it returns \<open>None\<close>, the terminal result, when the error is
  \<open>HypixelPlayerNotFoundError\<close>, and the marker \<open>ERROR_DURING_PROCESSING\<close> when it is a
  throttling error, an invalid-key error or any other API error.
\<close>

theorem stats_fetch_error_taxonomy:
  assumes "get_playerdata u = Inl e"
  shows "controller_get_playerdata get_playerdata u =
           Inr (if e = HypixelPlayerNotFoundError then PlayerNone
                else ERROR_DURING_PROCESSING)"
  using assms by (cases e) (simp_all add: controller_get_playerdata_def)

theorem stats_fetch_error_taxonomy_witness:
  "controller_get_playerdata (\<lambda>u. Inl HypixelAPIThrottleError :: hypixel_error + string) ''uuid''
     = Inr ERROR_DURING_PROCESSING
   \<and> controller_get_playerdata (\<lambda>u. Inl HypixelPlayerNotFoundError :: hypixel_error + string) ''uuid''
     = Inr PlayerNone"
  using stats_fetch_error_taxonomy
          [of "\<lambda>u. Inl HypixelAPIThrottleError :: hypixel_error + string" "''uuid''"
              HypixelAPIThrottleError]
        stats_fetch_error_taxonomy
          [of "\<lambda>u. Inl HypixelPlayerNotFoundError :: hypixel_error + string" "''uuid''"
              HypixelPlayerNotFoundError]
  by simp

section \<open>Settings and their dict\<close>

text \<open>
  Claim C9. For every \<open>SettingsDict\<close> \<open>d\<close> on whose keybind \<open>Key.to_dict\<close> undoes
  \<open>construct_key\<close>, and every path, \<open>Settings.from_dict(d, p).to_dict()\<close> is \<open>d\<close>, and so
  is \<open>to_dict()\<close> of any settings after \<open>update_from(d)\<close>: loading settings and writing
  them back keeps every field.
\<close>

theorem settings_round_trip:
  assumes "key_to_dict (construct_key (SettingsDict.show_on_tab_keybind d)) =
             SettingsDict.show_on_tab_keybind d"
  shows "to_dict key_to_dict (from_dict construct_key d p) = d
       \<and> to_dict key_to_dict (update_from construct_key s d) = d"
  using assms by (simp add: to_dict_def from_dict_def update_from_def)

theorem settings_round_trip_witness:
  "to_dict (\<lambda>(name, vk). (name, vk, ''special''))
     (from_dict (\<lambda>(name, vk, key_type). (name, vk))
        \<lparr>SettingsDict.hypixel_api_key = ''insert-your-key-here'',
         SettingsDict.antisniper_api_key = None,
         SettingsDict.use_antisniper_api = False,
         SettingsDict.known_nicks = [''AmazingNick'' \<mapsto> \<lparr>uuid = ''0123'', comment = ''Player''\<rparr>],
         SettingsDict.autodenick_teammates = True,
         SettingsDict.autoselect_logfile = True,
         SettingsDict.show_on_tab = True,
         SettingsDict.show_on_tab_keybind = (''tab'', None :: int option, ''special''),
         SettingsDict.check_for_updates = True,
         SettingsDict.hide_dead_players = True,
         SettingsDict.disable_overrideredirect = False,
         SettingsDict.hide_with_alpha = False,
         SettingsDict.alpha_hundredths = 80\<rparr>
        ''settings.toml'')
   = \<lparr>SettingsDict.hypixel_api_key = ''insert-your-key-here'',
      SettingsDict.antisniper_api_key = None,
      SettingsDict.use_antisniper_api = False,
      SettingsDict.known_nicks = [''AmazingNick'' \<mapsto> \<lparr>uuid = ''0123'', comment = ''Player''\<rparr>],
      SettingsDict.autodenick_teammates = True,
      SettingsDict.autoselect_logfile = True,
      SettingsDict.show_on_tab = True,
      SettingsDict.show_on_tab_keybind = (''tab'', None :: int option, ''special''),
      SettingsDict.check_for_updates = True,
      SettingsDict.hide_dead_players = True,
      SettingsDict.disable_overrideredirect = False,
      SettingsDict.hide_with_alpha = False,
      SettingsDict.alpha_hundredths = 80\<rparr>"
proof -
  let ?d = "\<lparr>SettingsDict.hypixel_api_key = ''insert-your-key-here'',
      SettingsDict.antisniper_api_key = None,
      SettingsDict.use_antisniper_api = False,
      SettingsDict.known_nicks = [''AmazingNick'' \<mapsto> \<lparr>uuid = ''0123'', comment = ''Player''\<rparr>],
      SettingsDict.autodenick_teammates = True,
      SettingsDict.autoselect_logfile = True,
      SettingsDict.show_on_tab = True,
      SettingsDict.show_on_tab_keybind = (''tab'', None :: int option, ''special''),
      SettingsDict.check_for_updates = True,
      SettingsDict.hide_dead_players = True,
      SettingsDict.disable_overrideredirect = False,
      SettingsDict.hide_with_alpha = False,
      SettingsDict.alpha_hundredths = 80\<rparr>"
  have h: "(\<lambda>(name, vk). (name, vk, ''special''))
             ((\<lambda>(name, vk, key_type). (name, vk)) (SettingsDict.show_on_tab_keybind ?d))
           = SettingsDict.show_on_tab_keybind ?d"
    by simp
  from settings_round_trip
         [where key_to_dict = "\<lambda>(name, vk). (name, vk, ''special'')"
            and construct_key = "\<lambda>(name, vk, key_type). (name, vk)"
            and d = ?d and p = "''settings.toml''", OF h]
  show ?thesis by blast
qed

section \<open>The window of the rate limiter\<close>

lemma length_filter_mono:
  "(\<And>x. x \<in> set xs \<Longrightarrow> P x \<Longrightarrow> Q x) \<Longrightarrow> length (filter P xs) \<le> length (filter Q xs)"
  by (induction xs) auto

lemma acquired_within_none:
  assumes "\<forall>s \<in> set (made_requests rl). s \<le> B" and "B + window rl < now"
  shows "acquired_within rl now = 0"
proof -
  have "filter (\<lambda>s. now - window rl \<le> s \<and> s \<le> now) (made_requests rl) = []"
    using assms by (auto simp: filter_empty_conv)
  then show ?thesis by (simp add: acquired_within_def)
qed

text \<open>The wait ends: past the window of the latest acquisition every slot is free.\<close>

lemma wait_for_slot_total:
  assumes "0 < limit rl" and "\<forall>s \<in> set (made_requests rl). s \<le> B"
  shows "\<exists>t. wait_for_slot rl now = Some t \<and> now \<le> t \<and> acquired_within rl t < limit rl"
proof (induction "nat (B + window rl + 1 - now)" arbitrary: now rule: less_induct)
  case less
  show ?case
  proof (cases "acquired_within rl now < limit rl")
    case True
    then have "wait_for_slot rl now = Some now"
      by (subst wait_for_slot.simps) simp
    with True show ?thesis by simp
  next
    case False
    have "now \<le> B + window rl"
    proof (rule ccontr)
      assume "\<not> now \<le> B + window rl"
      then have "acquired_within rl now = 0"
        using assms(2) by (intro acquired_within_none) auto
      with assms(1) False show False by simp
    qed
    then have "nat (B + window rl + 1 - (now + 1)) < nat (B + window rl + 1 - now)"
      by simp
    from less [OF this] obtain t where
      t: "wait_for_slot rl (now + 1) = Some t" "now + 1 \<le> t" "acquired_within rl t < limit rl"
      by blast
    have "wait_for_slot rl now = wait_for_slot rl (now + 1)"
      using False by (subst wait_for_slot.simps) simp
    with t show ?thesis by auto
  qed
qed

text \<open>
  What holds between acquisitions: no acquisition is recorded later than the clock
  reads, and no trailing window holds more than \<open>limit\<close> acquisitions.
\<close>

lemma acquire_keeps_window:
  assumes pos: "0 < limit rl"
    and past: "\<forall>s \<in> set (made_requests rl). s \<le> now"
    and bound: "\<forall>u. acquired_within rl u \<le> limit rl"
  shows "\<exists>t rl'. acquire rl now = Some (t, rl') \<and> now \<le> t
           \<and> limit rl' = limit rl \<and> window rl' = window rl
           \<and> made_requests rl' = t # made_requests rl
           \<and> (\<forall>s \<in> set (made_requests rl'). s \<le> t)
           \<and> (\<forall>u. acquired_within rl' u \<le> limit rl')"
proof -
  obtain t where t: "wait_for_slot rl now = Some t" "now \<le> t" "acquired_within rl t < limit rl"
    using wait_for_slot_total [OF pos past] by blast
  define rl' where "rl' = rl\<lparr>made_requests := t # made_requests rl\<rparr>"
  have acq: "acquire rl now = Some (t, rl')"
    using t(1) by (simp add: acquire_def rl'_def)
  have past': "\<forall>s \<in> set (made_requests rl'). s \<le> t"
    using past t(2) by (auto simp: rl'_def)
  have "acquired_within rl' u \<le> limit rl'" for u
  proof (cases "t \<le> u")
    case False
    then have "acquired_within rl' u = acquired_within rl u"
      by (simp add: acquired_within_def rl'_def)
    with bound show ?thesis by (simp add: rl'_def)
  next
    case True
    have "acquired_within rl u \<le> acquired_within rl t"
      unfolding acquired_within_def
    proof (rule length_filter_mono)
      fix s assume "s \<in> set (made_requests rl)" and "u - window rl \<le> s \<and> s \<le> u"
      with past t(2) True show "t - window rl \<le> s \<and> s \<le> t" by fastforce
    qed
    moreover have "acquired_within rl' u \<le> Suc (acquired_within rl u)"
      by (simp add: acquired_within_def rl'_def)
    ultimately show ?thesis using t(3) by (simp add: rl'_def)
  qed
  with acq past' t(2) show ?thesis by (auto simp: rl'_def)
qed

lemma acquisitions_keep_window:
  assumes "0 < limit rl"
    and "\<forall>s \<in> set (made_requests rl). s \<le> now"
    and "\<forall>u. acquired_within rl u \<le> limit rl"
  shows "\<exists>t rl'. acquisitions ds now rl = Some (t, rl') \<and> now \<le> t
           \<and> limit rl' = limit rl \<and> window rl' = window rl
           \<and> length (made_requests rl') = length ds + length (made_requests rl)
           \<and> (\<forall>u. acquired_within rl' u \<le> limit rl')"
  using assms
proof (induction ds arbitrary: now rl)
  case Nil
  then show ?case by simp
next
  case (Cons d ds)
  have past: "\<forall>s \<in> set (made_requests rl). s \<le> now + int d"
    using Cons.prems(2) by fastforce
  obtain t rl1 where a: "acquire rl (now + int d) = Some (t, rl1)" "now + int d \<le> t"
    "limit rl1 = limit rl" "window rl1 = window rl"
    "made_requests rl1 = t # made_requests rl"
    "\<forall>s \<in> set (made_requests rl1). s \<le> t"
    "\<forall>u. acquired_within rl1 u \<le> limit rl1"
    using acquire_keeps_window [OF Cons.prems(1) past Cons.prems(3)] by blast
  have pos1: "0 < limit rl1" using a(3) Cons.prems(1) by simp
  obtain t' rl' where b: "acquisitions ds t rl1 = Some (t', rl')" "t \<le> t'"
    "limit rl' = limit rl1" "window rl' = window rl1"
    "length (made_requests rl') = length ds + length (made_requests rl1)"
    "\<forall>u. acquired_within rl' u \<le> limit rl'"
    using Cons.IH [OF pos1 a(6) a(7)] by blast
  have "acquisitions (d # ds) now rl = Some (t', rl')"
    using a(1) b(1) by simp
  moreover have "now \<le> t'" using a(2) b(2) by simp
  ultimately show ?case using a b by auto
qed

text \<open>
  Claim C2. On a rate limiter constructed with a limit of at least one and any window,
  every sequence of acquisitions runs to its end, each call of \<open>acquire\<close> returning after
  a delay; every acquisition is recorded; and no trailing window \<open>[u - window, u]\<close>,
  whatever its end \<open>u\<close>, holds more than \<open>limit\<close> of the recorded acquisitions.
\<close>

theorem rate_limiter_window_bound:
  assumes "0 < l"
  shows "\<exists>t rl. acquisitions ds now (new_RateLimiter l w) = Some (t, rl)
           \<and> length (made_requests rl) = length ds
           \<and> (\<forall>u. acquired_within rl u \<le> l)"
proof -
  have "\<forall>u. acquired_within (new_RateLimiter l w) u \<le> limit (new_RateLimiter l w)"
    by (simp add: acquired_within_def new_RateLimiter_def)
  moreover have "0 < limit (new_RateLimiter l w)"
    using assms by (simp add: new_RateLimiter_def)
  moreover have "\<forall>s \<in> set (made_requests (new_RateLimiter l w)). s \<le> now"
    by (simp add: new_RateLimiter_def)
  ultimately obtain t rl where "acquisitions ds now (new_RateLimiter l w) = Some (t, rl)"
    "limit rl = limit (new_RateLimiter l w)"
    "length (made_requests rl) = length ds + length (made_requests (new_RateLimiter l w))"
    "\<forall>u. acquired_within rl u \<le> limit rl"
    using acquisitions_keep_window [of "new_RateLimiter l w" now ds] by blast
  then show ?thesis by (auto simp: new_RateLimiter_def)
qed

theorem rate_limiter_window_bound_witness:
  "\<forall>ds now. \<exists>t rl.
      acquisitions ds now (limiter (new_AntiSniperAPIKeyHolder ''key'' REQUEST_LIMIT REQUEST_WINDOW))
        = Some (t, rl)
      \<and> length (made_requests rl) = length ds
      \<and> (\<forall>u. acquired_within rl u \<le> 100)"
proof -
  have "(0::nat) < 100" by simp
  from rate_limiter_window_bound [OF this, of _ _ 60] show ?thesis
    by (simp add: new_AntiSniperAPIKeyHolder_def REQUEST_LIMIT_def REQUEST_WINDOW_def)
qed

lemma three_acquisitions:
  "acquisitions [0, 0, 0] 0 (new_RateLimiter 2 3) =
     Some (4, \<lparr>limit = 2, window = 3, made_requests = [4, 0, 0]\<rparr>)"
  by (simp add: acquire_def new_RateLimiter_def acquired_within_def wait_for_slot.simps)

section \<open>What a denick str_lower request gives\<close>







section \<open>What a winstreak request gives\<close>




end
